theory Spec2Isabelle
  imports
    Complex_Main
    "HOL-Library.Char_ord"
    "HOL-Library.List_Lexorder"
    "HOL-Library.Multiset"
begin

section \<open>Data model\<close>

text \<open>
  An event as the aggregator receives it. The class itself lives in the models module;
  the aggregator reads only \<open>topic\<close>, \<open>event_id\<close> and \<open>timestamp\<close>. The payload is
  opaque to the core and kept as text.
\<close>

record Event =
  topic :: string
  event_id :: string
  timestamp :: string
  source :: string
  payload :: string

text \<open>
  One row of the table \<open>processed_events\<close>, in column order
  \<open>(topic, event_id, timestamp, processed_at)\<close>: the tuple that \<open>fetchall\<close> returns
  and that \<open>get_events\<close> reads as \<open>e[0]\<close> .. \<open>e[3]\<close>. All four columns are TEXT; text
  is compared bytewise, which is the lexicographic order on \<open>string\<close>.
\<close>

type_synonym row = "string \<times> string \<times> string \<times> string"

definition row_topic :: "row \<Rightarrow> string" where
  "row_topic r = fst r"

definition row_event_id :: "row \<Rightarrow> string" where
  "row_event_id r = fst (snd r)"

definition row_timestamp :: "row \<Rightarrow> string" where
  "row_timestamp r = fst (snd (snd r))"

definition row_processed_at :: "row \<Rightarrow> string" where
  "row_processed_at r = snd (snd (snd r))"

text \<open>
  The durable file is the list of its rows in insertion (rowid) order. The primary key
  \<open>(topic, event_id)\<close> is the invariant \<open>primary_key\<close>.
\<close>

type_synonym table = "row list"

definition row_key :: "row \<Rightarrow> string \<times> string" where
  "row_key r = (row_topic r, row_event_id r)"



section \<open>DedupStore\<close>

text \<open>
  What the database layer can raise. \<open>IntegrityError\<close> is the violation of a
  constraint of the table; the columns are NOT NULL and always bound to strings, so
  the only constraint an INSERT can violate is the primary key. Every other error of
  the layer (I/O, locking, corruption) is a \<open>store_failure\<close>; whether one occurs
  during an insert is decided by the environment and is an input of the model, since
  the code tells the two kinds of error apart there. The reads (\<open>is_duplicate\<close> and
  the queries) have no handler in the code and are modelled on a database that
  answers them.
\<close>

datatype store_failure =
    OperationalError
  | DatabaseError
  | InternalError
  | ProgrammingError
  | InterfaceError
  | DataError
  | NotSupportedError

datatype sqlite_error = IntegrityError | StoreFailure store_failure

definition is_duplicate :: "table \<Rightarrow> string \<Rightarrow> string \<Rightarrow> bool" where
  "is_duplicate rows t e = (\<exists>r \<in> set rows. row_topic r = t \<and> row_event_id r = e)"

text \<open>
  \<open>INSERT INTO processed_events VALUES (?, ?, ?, ?)\<close> followed by \<open>commit\<close>. A failing
  statement leaves the table as it was (the connection's context manager rolls back).
\<close>

definition sql_insert :: "store_failure option \<Rightarrow> table \<Rightarrow> row \<Rightarrow> sqlite_error + table" where
  "sql_insert fault rows r =
     (case fault of
        Some f \<Rightarrow> Inl (StoreFailure f)
      | None \<Rightarrow>
          if \<exists>r' \<in> set rows. row_key r' = row_key r then Inl IntegrityError
          else Inr (rows @ [r]))"

text \<open>
  \<open>mark_processed\<close>: the try block returns True after the insert, the handler of
  \<open>IntegrityError\<close> returns False, any other exception leaves the method. \<open>now\<close> is the
  text of \<open>datetime.now(timezone.utc).isoformat()\<close> read during the call.
\<close>

definition mark_processed ::
  "store_failure option \<Rightarrow> table \<Rightarrow> string \<Rightarrow> string \<Rightarrow> string \<Rightarrow> string
     \<Rightarrow> store_failure + (bool \<times> table)" where
  "mark_processed fault rows t e ts now =
     (case sql_insert fault rows (t, e, ts, now) of
        Inr rows' \<Rightarrow> Inr (True, rows')
      | Inl IntegrityError \<Rightarrow> Inr (False, rows)
      | Inl (StoreFailure f) \<Rightarrow> Inl f)"

text \<open>
  \<open>ORDER BY processed_at DESC\<close>: rows with equal \<open>processed_at\<close> stay in scan
  order. No theorem below depends on the order among such rows.
\<close>

definition order_by_processed_at_desc :: "row list \<Rightarrow> row list" where
  "order_by_processed_at_desc rows = rev (sort_key row_processed_at (rev rows))"

text \<open>Python's truth value of an \<open>Optional[str]\<close>: None and the empty string are false.\<close>

fun truthy :: "string option \<Rightarrow> bool" where
  "truthy None = False"
| "truthy (Some t) = (t \<noteq> [])"

definition get_processed_events :: "table \<Rightarrow> string option \<Rightarrow> row list" where
  "get_processed_events rows topic_arg =
     (if truthy topic_arg then
        (case topic_arg of
           Some t \<Rightarrow> order_by_processed_at_desc (filter (\<lambda>r. row_topic r = t) rows)
         | None \<Rightarrow> order_by_processed_at_desc rows)
      else order_by_processed_at_desc rows)"

text \<open>\<open>DedupStore.get_stats\<close>: the total and the dictionary of the counts per topic.\<close>

definition topic_counts :: "table \<Rightarrow> string \<rightharpoonup> int" where
  "topic_counts rows t =
     (let n = length (filter (\<lambda>r. row_topic r = t) rows)
      in if n = 0 then None else Some (int n))"

definition DedupStore_get_stats :: "table \<Rightarrow> int \<times> (string \<rightharpoonup> int)" where
  "DedupStore_get_stats rows = (int (length rows), topic_counts rows)"

definition clear :: "table \<Rightarrow> table" where
  "clear rows = []"

section \<open>EventAggregator\<close>

text \<open>
  The response of \<open>get_stats\<close> (declared in the models module). Clock readings
  (\<open>time.time()\<close>) are real numbers; the rounding of floating-point subtraction is not
  modelled.
\<close>

record StatsResponse =
  received :: int
  unique_processed :: int
  duplicate_dropped :: int
  topics :: "string \<rightharpoonup> int"
  uptime :: real

text \<open>The dictionary \<open>self.stats\<close>.\<close>

record stats_dict =
  received :: int
  unique_processed :: int
  duplicate_dropped :: int
  start_time :: real

text \<open>The dictionary that \<open>publish\<close> returns.\<close>

record publish_result =
  accepted :: int
  rejected :: int
  duplicates_immediate :: int

text \<open>
  One task running \<open>_consume_events\<close>: it waits at \<open>queue.get()\<close>, or it holds the
  event it has taken off the queue and not yet processed, or its loop has ended.
\<close>

datatype worker = Waiting | Holding Event | Finished

text \<open>
  The aggregator object, with the two places outside the object that its methods
  write: \<open>loop_tasks\<close>, the tasks that \<open>start\<close> created in the event loop, each with
  its \<open>worker_id\<close> (\<open>consumer_tasks\<close> holds the positions of the tasks of the latest
  \<open>start\<close>), and \<open>error_log\<close>, the records the consumers wrote with \<open>logger.error\<close>.
\<close>

record aggregator =
  dedup_store :: table
  queue :: "Event list"
  stats :: stats_dict
  running :: bool
  consumer_tasks :: "nat list"
  loop_tasks :: "(nat \<times> worker) list"
  error_log :: "(nat \<times> store_failure) list"

definition EventAggregator_init :: "table \<Rightarrow> real \<Rightarrow> aggregator" where
  "EventAggregator_init store now =
     \<lparr>dedup_store = store,
      queue = [],
      stats = \<lparr>stats_dict.received = 0, unique_processed = 0, duplicate_dropped = 0,
               start_time = now\<rparr>,
      running = False,
      consumer_tasks = [],
      loop_tasks = [],
      error_log = []\<rparr>"

definition start :: "aggregator \<Rightarrow> aggregator" where
  "start a =
     (if \<not> running a then
        a\<lparr>running := True,
          consumer_tasks := map (\<lambda>i. length (loop_tasks a) + i) [0..<5],
          loop_tasks := loop_tasks a @ map (\<lambda>i. (i, Waiting)) [0..<5]\<rparr>
      else a)"

text \<open>
  \<open>stop\<close> clears the flag; the tasks it then waits for (\<open>asyncio.gather\<close>) are the
  first component of the result, empty when there is nothing to wait for.
\<close>

definition stop :: "aggregator \<Rightarrow> nat list \<times> aggregator" where
  "stop a =
     (let a' = a\<lparr>running := False\<rparr>
      in if consumer_tasks a' \<noteq> [] then (consumer_tasks a', a') else ([], a'))"

text \<open>
  The loop of \<open>publish\<close>. \<open>queue.put\<close> on the unbounded queue never suspends, so a
  call runs without another task in between.
\<close>

fun publish_loop ::
  "Event list \<Rightarrow> publish_result \<times> aggregator \<Rightarrow> publish_result \<times> aggregator" where
  "publish_loop [] (result, a) = (result, a)"
| "publish_loop (event # events) (result, a) =
     (let a1 = a\<lparr>stats := (stats a)\<lparr>stats_dict.received := stats_dict.received (stats a) + 1\<rparr>\<rparr>
      in if is_duplicate (dedup_store a1) (topic event) (event_id event) then
           publish_loop events
             (result\<lparr>duplicates_immediate := duplicates_immediate result + 1,
                     rejected := rejected result + 1\<rparr>,
              a1\<lparr>stats := (stats a1)\<lparr>stats_dict.duplicate_dropped :=
                                       stats_dict.duplicate_dropped (stats a1) + 1\<rparr>\<rparr>)
         else
           publish_loop events
             (result\<lparr>accepted := accepted result + 1\<rparr>, a1\<lparr>queue := queue a1 @ [event]\<rparr>))"

definition publish :: "aggregator \<Rightarrow> Event list \<Rightarrow> publish_result \<times> aggregator" where
  "publish a events =
     publish_loop events (\<lparr>accepted = 0, rejected = 0, duplicates_immediate = 0\<rparr>, a)"

text \<open>\<open>_process_event\<close>; a failure of the store leaves the method as an exception.\<close>

definition process_event ::
  "store_failure option \<Rightarrow> aggregator \<Rightarrow> Event \<Rightarrow> string \<Rightarrow> store_failure + aggregator" where
  "process_event fault a event now =
     (case mark_processed fault (dedup_store a) (topic event) (event_id event)
             (timestamp event) now of
        Inl f \<Rightarrow> Inl f
      | Inr (was_new, rows) \<Rightarrow>
          if was_new then
            Inr (a\<lparr>dedup_store := rows,
                   stats := (stats a)\<lparr>stats_dict.unique_processed :=
                                        stats_dict.unique_processed (stats a) + 1\<rparr>\<rparr>)
          else
            Inr (a\<lparr>dedup_store := rows,
                   stats := (stats a)\<lparr>stats_dict.duplicate_dropped :=
                                        stats_dict.duplicate_dropped (stats a) + 1\<rparr>\<rparr>))"

text \<open>
  One iteration of \<open>_consume_events\<close> by the task at position \<open>h\<close>, in its two
  halves. \<open>consume_get\<close>: the loop test and the bounded wait at \<open>queue.get()\<close>; with
  an empty queue the wait times out and the loop continues, and the loop ends when
  the aggregator is not running and the queue is empty. \<open>consume_process\<close>: the held
  event goes to \<open>_process_event\<close>; an exception is caught and logged with the
  \<open>worker_id\<close>, and the loop continues. Both are \<open>None\<close> when the task is not at that
  point of its loop.
\<close>

definition consume_get :: "aggregator \<Rightarrow> nat \<Rightarrow> aggregator option" where
  "consume_get a h =
     (if h < length (loop_tasks a) \<and> snd (loop_tasks a ! h) = Waiting then
        (if running a \<or> queue a \<noteq> [] then
           (case queue a of
              [] \<Rightarrow> Some a
            | event # rest \<Rightarrow>
                Some (a\<lparr>queue := rest,
                        loop_tasks := (loop_tasks a)[h := (fst (loop_tasks a ! h), Holding event)]\<rparr>))
         else Some (a\<lparr>loop_tasks := (loop_tasks a)[h := (fst (loop_tasks a ! h), Finished)]\<rparr>))
      else None)"

definition consume_process ::
  "aggregator \<Rightarrow> nat \<Rightarrow> string \<Rightarrow> store_failure option \<Rightarrow> aggregator option" where
  "consume_process a h now fault =
     (if h < length (loop_tasks a) then
        (case loop_tasks a ! h of
           (worker_id, Holding event) \<Rightarrow>
             (case process_event fault a event now of
                Inr a' \<Rightarrow> Some (a'\<lparr>loop_tasks := (loop_tasks a')[h := (worker_id, Waiting)]\<rparr>)
              | Inl f \<Rightarrow>
                  Some (a\<lparr>loop_tasks := (loop_tasks a)[h := (worker_id, Waiting)],
                          error_log := error_log a @ [(worker_id, f)]\<rparr>))
         | _ \<Rightarrow> None)
      else None)"

definition get_stats :: "aggregator \<Rightarrow> real \<Rightarrow> StatsResponse" where
  "get_stats a now =
     (let store_stats = DedupStore_get_stats (dedup_store a);
          uptime = now - start_time (stats a)
      in \<lparr>StatsResponse.received = stats_dict.received (stats a),
          StatsResponse.unique_processed = stats_dict.unique_processed (stats a),
          StatsResponse.duplicate_dropped = stats_dict.duplicate_dropped (stats a),
          topics = snd store_stats,
          uptime = uptime\<rparr>)"

text \<open>\<open>get_events\<close> reshapes each row into a dictionary, kept in the order of its keys.\<close>

definition row_dict :: "row \<Rightarrow> (string \<times> string) list" where
  "row_dict e =
     [(''topic'', row_topic e), (''event_id'', row_event_id e),
      (''timestamp'', row_timestamp e), (''processed_at'', row_processed_at e)]"

definition get_events :: "aggregator \<Rightarrow> string option \<Rightarrow> (string \<times> string) list list" where
  "get_events a topic_arg = map row_dict (get_processed_events (dedup_store a) topic_arg)"

section \<open>Executions\<close>




text \<open>
  What can happen to an aggregator, one step at a time: the calls of its public
  methods, the two halves of an iteration of a consumer task, and a restart of the
  process, which builds a new aggregator on the same durable file at any moment: the
  queue, the tasks, the counters and the log of the old process are in memory and are
  gone, whether or not events were still queued or held. A call of \<open>publish\<close> with several events that is interleaved with consumers
  is the sequence of its one-event calls. \<open>Process\<close> carries the clock reading that
  becomes \<open>processed_at\<close> and what the database layer does to the insert.
\<close>

datatype action =
    Start
  | Stop
  | Publish "Event list"
  | Get nat
  | Process nat string "store_failure option"
  | Restart real

definition step :: "aggregator \<Rightarrow> action \<Rightarrow> aggregator option" where
  "step a act =
     (case act of
        Start \<Rightarrow> Some (start a)
      | Stop \<Rightarrow> Some (snd (stop a))
      | Publish events \<Rightarrow> Some (snd (publish a events))
      | Get h \<Rightarrow> consume_get a h
      | Process h now fault \<Rightarrow> consume_process a h now fault
      | Restart now \<Rightarrow> Some (EventAggregator_init (dedup_store a) now))"

fun run :: "aggregator \<Rightarrow> action list \<Rightarrow> aggregator option" where
  "run a [] = Some a"
| "run a (act # acts) = (case step a act of None \<Rightarrow> None | Some a' \<Rightarrow> run a' acts)"








text \<open>
  A sequence of calls of \<open>mark_processed\<close> on one store, each with its arguments, its
  clock reading and what the database layer does to it, and the outcome of each call.
\<close>

record mark_call =
  call_fault :: "store_failure option"
  call_topic :: string
  call_event_id :: string
  call_timestamp :: string
  call_now :: string

fun mark_calls :: "table \<Rightarrow> mark_call list \<Rightarrow> (store_failure + bool) list" where
  "mark_calls rows [] = []"
| "mark_calls rows (c # cs) =
     (case mark_processed (call_fault c) rows (call_topic c) (call_event_id c)
             (call_timestamp c) (call_now c) of
        Inr (was_new, rows') \<Rightarrow> Inr was_new # mark_calls rows' cs
      | Inl f \<Rightarrow> Inl f # mark_calls rows cs)"

definition returns_true_on ::
  "string \<Rightarrow> string \<Rightarrow> mark_call \<times> (store_failure + bool) \<Rightarrow> bool" where
  "returns_true_on t e cr =
     (call_topic (fst cr) = t \<and> call_event_id (fst cr) = e \<and> snd cr = Inr True)"

text \<open>The test of \<open>publish\<close> on one event: the store already has the event's key.\<close>

definition fast_path_duplicate :: "aggregator \<Rightarrow> Event \<Rightarrow> bool" where
  "fast_path_duplicate a event = is_duplicate (dedup_store a) (topic event) (event_id event)"

text \<open>Rows in descending order of \<open>processed_at\<close>, most recent first.\<close>

definition most_recent_first :: "row list \<Rightarrow> bool" where
  "most_recent_first rows =
     sorted_wrt (\<lambda>r1 r2. row_processed_at r2 \<le> row_processed_at r1) rows"

text \<open>The restart of the process, the one step that builds a new aggregator.\<close>

fun restarts :: "action \<Rightarrow> bool" where
  "restarts (Restart now) = True"
| "restarts act = False"




section \<open>The store: first insertion wins\<close>

lemma is_duplicate_key: "is_duplicate rows t e = (\<exists>r \<in> set rows. row_key r = (t, e))"
  by (simp add: is_duplicate_def row_key_def)

lemma mark_processed_None:
  "mark_processed None rows t e ts now =
     Inr (\<not> is_duplicate rows t e,
          if is_duplicate rows t e then rows else rows @ [(t, e, ts, now)])"
  by (simp add: mark_processed_def sql_insert_def is_duplicate_key)
     (simp add: row_key_def row_topic_def row_event_id_def)

lemma mark_processed_Some: "mark_processed (Some f) rows t e ts now = Inl f"
  by (simp add: mark_processed_def sql_insert_def)

lemma is_duplicate_append:
  "is_duplicate (rows @ [(t', e', ts, now)]) t e = (is_duplicate rows t e \<or> (t' = t \<and> e' = e))"
  by (auto simp: is_duplicate_def row_topic_def row_event_id_def)

lemma returns_true_on_pair:
  "returns_true_on t e (c, r) = (call_topic c = t \<and> call_event_id c = e \<and> r = Inr True)"
  by (simp add: returns_true_on_def)

lemma no_true_when_duplicate:
  "is_duplicate rows t e \<Longrightarrow> filter (returns_true_on t e) (zip cs (mark_calls rows cs)) = []"
proof (induction cs arbitrary: rows)
  case Nil
  then show ?case by simp
next
  case (Cons c cs)
  show ?case
  proof (cases "call_fault c")
    case None
    with Cons show ?thesis
      by (auto simp: mark_processed_None returns_true_on_pair is_duplicate_append)
  next
    case (Some f)
    with Cons show ?thesis
      by (simp add: mark_processed_Some returns_true_on_pair)
  qed
qed

lemma one_true_when_new:
  "\<not> is_duplicate rows t e \<Longrightarrow>
   \<exists>c \<in> set cs. call_topic c = t \<and> call_event_id c = e \<and> call_fault c = None \<Longrightarrow>
   length (filter (returns_true_on t e) (zip cs (mark_calls rows cs))) = 1"
proof (induction cs arbitrary: rows)
  case Nil
  then show ?case by simp
next
  case (Cons c cs)
  show ?case
  proof (cases "call_fault c")
    case (Some f)
    with Cons.prems
    have "\<exists>c \<in> set cs. call_topic c = t \<and> call_event_id c = e \<and> call_fault c = None"
      by auto
    with Cons.IH [OF Cons.prems(1)] Some show ?thesis
      by (simp add: mark_processed_Some returns_true_on_pair)
  next
    case None
    show ?thesis
    proof (cases "call_topic c = t \<and> call_event_id c = e")
      case True
      then have "is_duplicate
                   (rows @ [(call_topic c, call_event_id c, call_timestamp c, call_now c)]) t e"
        by (simp add: is_duplicate_append)
      from no_true_when_duplicate [OF this] None True Cons.prems(1) show ?thesis
        by (simp add: mark_processed_None returns_true_on_pair)
    next
      case False
      with Cons.prems
      have ex: "\<exists>c \<in> set cs. call_topic c = t \<and> call_event_id c = e \<and> call_fault c = None"
        by auto
      show ?thesis
      proof (cases "is_duplicate rows (call_topic c) (call_event_id c)")
        case True
        with Cons.IH [OF Cons.prems(1) ex] None False show ?thesis
          by (simp add: mark_processed_None returns_true_on_pair)
      next
        case dup: False
        from False Cons.prems(1)
        have "\<not> is_duplicate
                 (rows @ [(call_topic c, call_event_id c, call_timestamp c, call_now c)]) t e"
          by (auto simp: is_duplicate_append)
        from Cons.IH [OF this ex] None False dup show ?thesis
          by (auto simp: mark_processed_None returns_true_on_pair)
      qed
    qed
  qed
qed

text \<open>
  Claim C2. On a database layer that does not fail, \<open>mark_processed\<close> returns a value
  and never an exception: True exactly when no row with the key \<open>(t, e)\<close> existed, and
  then the row is inserted with the clock reading as \<open>processed_at\<close>; False, with the
  table unchanged, when such a row existed. In any sequence of calls on one store
  (calls on other keys and calls the layer fails may lie in between) that starts
  without the key and has a call on the key that the layer does not fail, exactly one
  call on the key returns True.
\<close>

theorem mark_processed_first_insert_wins:
  "mark_processed None rows t e ts now =
     Inr (\<not> is_duplicate rows t e,
          if is_duplicate rows t e then rows else rows @ [(t, e, ts, now)])
   \<and> (\<not> is_duplicate rows t e \<longrightarrow>
        (\<exists>c \<in> set cs. call_topic c = t \<and> call_event_id c = e \<and> call_fault c = None) \<longrightarrow>
        length (filter (returns_true_on t e) (zip cs (mark_calls rows cs))) = 1)"
  using mark_processed_None one_true_when_new by blast

theorem mark_processed_first_insert_wins_witness:
  "\<not> is_duplicate [] ''orders'' ''e1''
   \<and> mark_processed None [] ''orders'' ''e1'' ''2025-10-18T10:00:00Z'' ''2025-10-18T10:00:05''
       = Inr (True, [(''orders'', ''e1'', ''2025-10-18T10:00:00Z'', ''2025-10-18T10:00:05'')])
   \<and> length (filter (returns_true_on ''orders'' ''e1'')
        (zip [\<lparr>call_fault = None, call_topic = ''orders'', call_event_id = ''e1'',
                call_timestamp = ''2025-10-18T10:00:00Z'', call_now = ''2025-10-18T10:00:05''\<rparr>,
              \<lparr>call_fault = None, call_topic = ''orders'', call_event_id = ''e1'',
                call_timestamp = ''2025-10-18T10:01:00Z'', call_now = ''2025-10-18T10:00:06''\<rparr>]
          (mark_calls []
             [\<lparr>call_fault = None, call_topic = ''orders'', call_event_id = ''e1'',
                call_timestamp = ''2025-10-18T10:00:00Z'', call_now = ''2025-10-18T10:00:05''\<rparr>,
              \<lparr>call_fault = None, call_topic = ''orders'', call_event_id = ''e1'',
                call_timestamp = ''2025-10-18T10:01:00Z'', call_now = ''2025-10-18T10:00:06''\<rparr>]))) = 1"
proof -
  let ?cs = "[\<lparr>call_fault = None, call_topic = ''orders'', call_event_id = ''e1'',
                call_timestamp = ''2025-10-18T10:00:00Z'', call_now = ''2025-10-18T10:00:05''\<rparr>,
              \<lparr>call_fault = None, call_topic = ''orders'', call_event_id = ''e1'',
                call_timestamp = ''2025-10-18T10:01:00Z'', call_now = ''2025-10-18T10:00:06''\<rparr>]"
  have new: "\<not> is_duplicate [] ''orders'' ''e1''"
    by (simp add: is_duplicate_def)
  have ex: "\<exists>c \<in> set ?cs. call_topic c = ''orders'' \<and> call_event_id c = ''e1'' \<and> call_fault c = None"
    by simp
  note inst = mark_processed_first_insert_wins [of "[]" "''orders''" "''e1''"
      "''2025-10-18T10:00:00Z''" "''2025-10-18T10:00:05''" ?cs]
  from inst new
  have first: "mark_processed None [] ''orders'' ''e1'' ''2025-10-18T10:00:00Z'' ''2025-10-18T10:00:05''
       = Inr (True, [(''orders'', ''e1'', ''2025-10-18T10:00:00Z'', ''2025-10-18T10:00:05'')])"
    by simp
  from inst new ex
  have one: "length (filter (returns_true_on ''orders'' ''e1'') (zip ?cs (mark_calls [] ?cs))) = 1"
    by blast
  from new first one show ?thesis
    by blast
qed

section \<open>publish\<close>

lemma publish_loop_closed:
  "publish_loop events (result, a) =
     (result\<lparr>accepted := accepted result
                  + int (length (filter (\<lambda>ev. \<not> fast_path_duplicate a ev) events)),
             rejected := rejected result
                  + int (length (filter (fast_path_duplicate a) events)),
             duplicates_immediate := duplicates_immediate result
                  + int (length (filter (fast_path_duplicate a) events))\<rparr>,
      a\<lparr>stats := (stats a)
           \<lparr>stats_dict.received := stats_dict.received (stats a) + int (length events),
            stats_dict.duplicate_dropped := stats_dict.duplicate_dropped (stats a)
                  + int (length (filter (fast_path_duplicate a) events))\<rparr>,
        queue := queue a @ filter (\<lambda>ev. \<not> fast_path_duplicate a ev) events\<rparr>)"
proof (induction events arbitrary: result a)
  case Nil
  show ?case by simp
next
  case (Cons ev events)
  show ?case
    by (cases "is_duplicate (dedup_store a) (topic ev) (event_id ev)")
       (simp_all add: Cons.IH Let_def fast_path_duplicate_def)
qed

lemma length_filter_split:
  "length (filter (\<lambda>x. \<not> P x) xs) + length (filter P xs) = length xs"
  by (induction xs) auto

lemma publish_state:
  "snd (publish a events) =
      a\<lparr>stats := (stats a)
           \<lparr>stats_dict.received := stats_dict.received (stats a) + int (length events),
            stats_dict.duplicate_dropped := stats_dict.duplicate_dropped (stats a)
                  + int (length (filter (fast_path_duplicate a) events))\<rparr>,
        queue := queue a @ filter (\<lambda>ev. \<not> fast_path_duplicate a ev) events\<rparr>"
  by (simp add: publish_def publish_loop_closed)

text \<open>
  Claim C5. One call of \<open>publish\<close>, for every list of events (the empty list too):
  \<open>received\<close> grows by one per event; the events whose key the store already has are
  counted in \<open>duplicates_immediate\<close>, in \<open>rejected\<close> and in \<open>duplicate_dropped\<close> and do
  not reach the queue; the other events are counted in \<open>accepted\<close> and are appended to
  the queue in the order of the list. Nothing else changes: the call processes no
  event, so the store, \<open>unique_processed\<close> and the consumer tasks are as before.
\<close>

theorem publish_in_order:
  "publish a events =
     (\<lparr>accepted = int (length (filter (\<lambda>ev. \<not> fast_path_duplicate a ev) events)),
       rejected = int (length (filter (fast_path_duplicate a) events)),
       duplicates_immediate = int (length (filter (fast_path_duplicate a) events))\<rparr>,
      a\<lparr>stats := (stats a)
           \<lparr>stats_dict.received := stats_dict.received (stats a) + int (length events),
            stats_dict.duplicate_dropped := stats_dict.duplicate_dropped (stats a)
                  + int (length (filter (fast_path_duplicate a) events))\<rparr>,
        queue := queue a @ filter (\<lambda>ev. \<not> fast_path_duplicate a ev) events\<rparr>)"
  by (simp add: publish_def publish_loop_closed)

theorem publish_in_order_witness:
  "publish (EventAggregator_init [(''a'', ''1'', ''t1'', ''05'')] 0)
     [\<lparr>topic = ''a'', event_id = ''2'', timestamp = ''t'', source = ''s'', payload = ''p''\<rparr>,
      \<lparr>topic = ''a'', event_id = ''1'', timestamp = ''t'', source = ''s'', payload = ''p''\<rparr>,
      \<lparr>topic = ''b'', event_id = ''1'', timestamp = ''t'', source = ''s'', payload = ''p''\<rparr>]
   = (\<lparr>accepted = 2, rejected = 1, duplicates_immediate = 1\<rparr>,
      \<lparr>dedup_store = [(''a'', ''1'', ''t1'', ''05'')],
        queue =
          [\<lparr>topic = ''a'', event_id = ''2'', timestamp = ''t'', source = ''s'', payload = ''p''\<rparr>,
           \<lparr>topic = ''b'', event_id = ''1'', timestamp = ''t'', source = ''s'', payload = ''p''\<rparr>],
        stats = \<lparr>stats_dict.received = 3, unique_processed = 0, duplicate_dropped = 1,
                  start_time = 0\<rparr>,
        running = False, consumer_tasks = [], loop_tasks = [], error_log = []\<rparr>)"
  using publish_in_order [of "EventAggregator_init [(''a'', ''1'', ''t1'', ''05'')] 0"
      "[\<lparr>topic = ''a'', event_id = ''2'', timestamp = ''t'', source = ''s'', payload = ''p''\<rparr>,
        \<lparr>topic = ''a'', event_id = ''1'', timestamp = ''t'', source = ''s'', payload = ''p''\<rparr>,
        \<lparr>topic = ''b'', event_id = ''1'', timestamp = ''t'', source = ''s'', payload = ''p''\<rparr>]"]
  by (simp add: fast_path_duplicate_def is_duplicate_def EventAggregator_init_def
        row_topic_def row_event_id_def)

text \<open>
  Claim C10. The result of one call of \<open>publish\<close>: \<open>rejected\<close> equals
  \<open>duplicates_immediate\<close>, \<open>accepted + rejected\<close> is the length of the list, and
  \<open>received\<close> has grown by the length of the list; \<open>publish([])\<close> returns three
  zeros and leaves the aggregator, its counters and its queue as they were.
\<close>

theorem publish_result_counts:
  "rejected (fst (publish a events)) = duplicates_immediate (fst (publish a events))
   \<and> accepted (fst (publish a events)) + rejected (fst (publish a events))
       = int (length events)
   \<and> stats_dict.received (stats (snd (publish a events)))
       = stats_dict.received (stats a) + int (length events)
   \<and> publish a [] = (\<lparr>accepted = 0, rejected = 0, duplicates_immediate = 0\<rparr>, a)"
proof -
  have "int (length (filter (\<lambda>ev. \<not> fast_path_duplicate a ev) events))
        + int (length (filter (fast_path_duplicate a) events)) = int (length events)"
    using length_filter_split [of "fast_path_duplicate a" events] by linarith
  then show ?thesis
    by (simp add: publish_def publish_loop_closed)
qed

theorem publish_result_counts_witness:
  "rejected (fst (publish (EventAggregator_init [(''a'', ''1'', ''t1'', ''05'')] 0)
       [\<lparr>topic = ''a'', event_id = ''2'', timestamp = ''t'', source = ''s'', payload = ''p''\<rparr>,
        \<lparr>topic = ''a'', event_id = ''1'', timestamp = ''t'', source = ''s'', payload = ''p''\<rparr>]))
     = duplicates_immediate (fst (publish (EventAggregator_init [(''a'', ''1'', ''t1'', ''05'')] 0)
       [\<lparr>topic = ''a'', event_id = ''2'', timestamp = ''t'', source = ''s'', payload = ''p''\<rparr>,
        \<lparr>topic = ''a'', event_id = ''1'', timestamp = ''t'', source = ''s'', payload = ''p''\<rparr>]))
   \<and> accepted (fst (publish (EventAggregator_init [(''a'', ''1'', ''t1'', ''05'')] 0)
       [\<lparr>topic = ''a'', event_id = ''2'', timestamp = ''t'', source = ''s'', payload = ''p''\<rparr>,
        \<lparr>topic = ''a'', event_id = ''1'', timestamp = ''t'', source = ''s'', payload = ''p''\<rparr>]))
     + rejected (fst (publish (EventAggregator_init [(''a'', ''1'', ''t1'', ''05'')] 0)
       [\<lparr>topic = ''a'', event_id = ''2'', timestamp = ''t'', source = ''s'', payload = ''p''\<rparr>,
        \<lparr>topic = ''a'', event_id = ''1'', timestamp = ''t'', source = ''s'', payload = ''p''\<rparr>]))
     = 2
   \<and> stats_dict.received (stats (snd (publish (EventAggregator_init [(''a'', ''1'', ''t1'', ''05'')] 0)
       [\<lparr>topic = ''a'', event_id = ''2'', timestamp = ''t'', source = ''s'', payload = ''p''\<rparr>,
        \<lparr>topic = ''a'', event_id = ''1'', timestamp = ''t'', source = ''s'', payload = ''p''\<rparr>])))
     = 2"
  using publish_result_counts [of "EventAggregator_init [(''a'', ''1'', ''t1'', ''05'')] 0"
      "[\<lparr>topic = ''a'', event_id = ''2'', timestamp = ''t'', source = ''s'', payload = ''p''\<rparr>,
        \<lparr>topic = ''a'', event_id = ''1'', timestamp = ''t'', source = ''s'', payload = ''p''\<rparr>]"]
  by (simp add: EventAggregator_init_def)

section \<open>Lifecycle\<close>

lemma stop_state: "snd (stop a) = a\<lparr>running := False\<rparr>"
  by (simp add: stop_def Let_def)

text \<open>
  Claim C8. \<open>start\<close> on a running aggregator changes nothing, so a second call
  after a first is a no-op. \<open>start\<close> on an aggregator that is not running sets the
  flag and creates exactly five consumer tasks, with the worker ids 0 to 4, each at
  the beginning of its loop. \<open>stop\<close> on an aggregator that was never started has no
  task to wait for and leaves the aggregator as it was.
\<close>

theorem start_idempotent:
  "(running a \<longrightarrow> start a = a)
   \<and> start (start a) = start a
   \<and> (\<not> running a \<longrightarrow>
        running (start a)
        \<and> length (consumer_tasks (start a)) = 5
        \<and> loop_tasks (start a)
            = loop_tasks a @ [(0, Waiting), (1, Waiting), (2, Waiting), (3, Waiting), (4, Waiting)])
   \<and> stop (EventAggregator_init store now) = ([], EventAggregator_init store now)"
  by (simp add: start_def stop_def EventAggregator_init_def upt_rec)

theorem start_idempotent_witness:
  "\<not> running (EventAggregator_init [] 0)
   \<and> running (start (EventAggregator_init [] 0))
   \<and> start (start (EventAggregator_init [] 0)) = start (EventAggregator_init [] 0)
   \<and> length (consumer_tasks (start (EventAggregator_init [] 0))) = 5
   \<and> loop_tasks (start (EventAggregator_init [] 0))
        = [(0, Waiting), (1, Waiting), (2, Waiting), (3, Waiting), (4, Waiting)]
   \<and> stop (EventAggregator_init [] 0) = ([], EventAggregator_init [] 0)"
proof -
  have idle: "\<not> running (EventAggregator_init [] 0)"
    by (simp add: EventAggregator_init_def)
  have none: "loop_tasks (EventAggregator_init [] 0) = []"
    by (simp add: EventAggregator_init_def)
  from start_idempotent [of "EventAggregator_init [] 0" "[]" 0] idle none show ?thesis
    by simp
qed

section \<open>Queries\<close>

lemma sorted_desc: "most_recent_first (order_by_processed_at_desc rows)"
proof -
  have "sorted (map row_processed_at (sort_key row_processed_at (rev rows)))"
    by (rule sorted_sort_key)
  then have "sorted_wrt (\<lambda>r1 r2. row_processed_at r1 \<le> row_processed_at r2)
               (sort_key row_processed_at (rev rows))"
    by (simp add: sorted_map)
  then show ?thesis
    by (simp add: most_recent_first_def order_by_processed_at_desc_def sorted_wrt_rev)
qed

lemma mset_order_by: "mset (order_by_processed_at_desc rows) = mset rows"
  by (simp add: order_by_processed_at_desc_def)

lemma row_dict_tuple:
  "row_dict = (\<lambda>(tp, e, ts, p).
     [(''topic'', tp), (''event_id'', e), (''timestamp'', ts), (''processed_at'', p)])"
  by (auto simp: fun_eq_iff row_dict_def row_topic_def row_event_id_def row_timestamp_def
        row_processed_at_def)

lemma row_topic_tuple: "(\<lambda>r. row_topic r = t) = (\<lambda>(tp, e, ts, p). tp = t)"
  by (auto simp: fun_eq_iff row_topic_def)

text \<open>
  Claim C4. For a non-empty topic \<open>t\<close>, \<open>get_processed_events\<close> returns exactly the
  rows of the table whose topic is \<open>t\<close>, most recent \<open>processed_at\<close> first; without a
  topic it returns all rows of the table in that order. \<open>get_events\<close> returns that
  list in the same order, each row \<open>(topic, event_id, timestamp, processed_at)\<close> as
  the dictionary of its four fields under these names: for a non-empty topic the
  dictionaries of exactly the rows of that topic, without a topic those of all rows.
\<close>

theorem topic_filtering:
  "(t \<noteq> [] \<longrightarrow>
      mset (get_processed_events rows (Some t)) = mset (filter (\<lambda>r. row_topic r = t) rows)
      \<and> most_recent_first (get_processed_events rows (Some t)))
   \<and> mset (get_processed_events rows None) = mset rows
   \<and> most_recent_first (get_processed_events rows None)
   \<and> get_events a topic_arg
       = map (\<lambda>(tp, e, ts, p).
                [(''topic'', tp), (''event_id'', e), (''timestamp'', ts), (''processed_at'', p)])
           (get_processed_events (dedup_store a) topic_arg)
   \<and> (t \<noteq> [] \<longrightarrow>
        mset (get_events a (Some t))
          = image_mset (\<lambda>(tp, e, ts, p).
                [(''topic'', tp), (''event_id'', e), (''timestamp'', ts), (''processed_at'', p)])
              (mset (filter (\<lambda>(tp, e, ts, p). tp = t) (dedup_store a))))
   \<and> mset (get_events a None)
       = image_mset (\<lambda>(tp, e, ts, p).
                [(''topic'', tp), (''event_id'', e), (''timestamp'', ts), (''processed_at'', p)])
           (mset (dedup_store a))"
proof -
  have rows_t: "t \<noteq> [] \<Longrightarrow>
      mset (get_processed_events rs (Some t)) = mset (filter (\<lambda>r. row_topic r = t) rs)" for rs
    by (simp add: get_processed_events_def mset_order_by)
  have rows_all: "mset (get_processed_events rs None) = mset rs" for rs
    by (simp add: get_processed_events_def mset_order_by)
  have order: "most_recent_first (get_processed_events rows arg)" for arg
    by (cases arg) (simp_all add: get_processed_events_def sorted_desc)
  have dicts: "get_events a arg
       = map (\<lambda>(tp, e, ts, p).
                [(''topic'', tp), (''event_id'', e), (''timestamp'', ts), (''processed_at'', p)])
           (get_processed_events (dedup_store a) arg)" for arg
    by (simp add: get_events_def row_dict_tuple)
  have dicts_t: "t \<noteq> [] \<Longrightarrow>
        mset (get_events a (Some t))
          = image_mset (\<lambda>(tp, e, ts, p).
                [(''topic'', tp), (''event_id'', e), (''timestamp'', ts), (''processed_at'', p)])
              (mset (filter (\<lambda>(tp, e, ts, p). tp = t) (dedup_store a)))"
    using rows_t [of "dedup_store a"]
    by (simp add: dicts row_topic_tuple)
  have dicts_all: "mset (get_events a None)
       = image_mset (\<lambda>(tp, e, ts, p).
                [(''topic'', tp), (''event_id'', e), (''timestamp'', ts), (''processed_at'', p)])
           (mset (dedup_store a))"
    using rows_all [of "dedup_store a"]
    by (simp add: dicts)
  from rows_t rows_all order dicts dicts_t dicts_all show ?thesis
    by blast
qed

theorem topic_filtering_witness:
  "''a'' \<noteq> []
   \<and> get_processed_events
        [(''a'', ''1'', ''t1'', ''2025-10-18T10:00:05''),
         (''b'', ''1'', ''t2'', ''2025-10-18T10:00:06''),
         (''a'', ''2'', ''t3'', ''2025-10-18T10:00:07'')] (Some ''a'')
       = [(''a'', ''2'', ''t3'', ''2025-10-18T10:00:07''),
          (''a'', ''1'', ''t1'', ''2025-10-18T10:00:05'')]
   \<and> most_recent_first
        [(''a'', ''2'', ''t3'', ''2025-10-18T10:00:07''),
         (''a'', ''1'', ''t1'', ''2025-10-18T10:00:05'')]
   \<and> get_events
        (EventAggregator_init
           [(''a'', ''1'', ''t1'', ''2025-10-18T10:00:05''),
            (''b'', ''1'', ''t2'', ''2025-10-18T10:00:06''),
            (''a'', ''2'', ''t3'', ''2025-10-18T10:00:07'')] 0) (Some ''a'')
       = [[(''topic'', ''a''), (''event_id'', ''2''), (''timestamp'', ''t3''),
           (''processed_at'', ''2025-10-18T10:00:07'')],
          [(''topic'', ''a''), (''event_id'', ''1''), (''timestamp'', ''t1''),
           (''processed_at'', ''2025-10-18T10:00:05'')]]"
proof -
  let ?rows = "[(''a'', ''1'', ''t1'', ''2025-10-18T10:00:05''),
         (''b'', ''1'', ''t2'', ''2025-10-18T10:00:06''),
         (''a'', ''2'', ''t3'', ''2025-10-18T10:00:07'')]"
  have nonempty: "''a'' \<noteq> []" by simp
  have store: "dedup_store (EventAggregator_init ?rows 0) = ?rows"
    by (simp add: EventAggregator_init_def)
  have result: "get_processed_events ?rows (Some ''a'')
       = [(''a'', ''2'', ''t3'', ''2025-10-18T10:00:07''),
          (''a'', ''1'', ''t1'', ''2025-10-18T10:00:05'')]"
    by code_simp
  note inst = topic_filtering [of "''a''" ?rows "EventAggregator_init ?rows 0" "Some ''a''"]
  from inst nonempty result
  have order: "most_recent_first
        [(''a'', ''2'', ''t3'', ''2025-10-18T10:00:07''),
         (''a'', ''1'', ''t1'', ''2025-10-18T10:00:05'')]"
    by simp
  from inst have "get_events (EventAggregator_init ?rows 0) (Some ''a'')
       = map (\<lambda>(tp, e, ts, p).
                [(''topic'', tp), (''event_id'', e), (''timestamp'', ts), (''processed_at'', p)])
           (get_processed_events (dedup_store (EventAggregator_init ?rows 0)) (Some ''a''))"
    by blast
  then have dicts: "get_events (EventAggregator_init ?rows 0) (Some ''a'')
       = [[(''topic'', ''a''), (''event_id'', ''2''), (''timestamp'', ''t3''),
           (''processed_at'', ''2025-10-18T10:00:07'')],
          [(''topic'', ''a''), (''event_id'', ''1''), (''timestamp'', ''t1''),
           (''processed_at'', ''2025-10-18T10:00:05'')]]"
    by (simp add: store result)
  from nonempty result order dicts show ?thesis
    by blast
qed

text \<open>
  Claim C9. With the empty string as topic, \<open>get_processed_events\<close> takes the branch
  without a filter: it returns what the call without a topic returns, all rows of the
  table. So \<open>get_events\<close> with the empty string returns the dictionaries of all rows
  of the store, one for each row with its four fields, and not the empty list,
  unless the store is empty.
\<close>

theorem empty_topic_returns_all:
  "get_processed_events rows (Some []) = get_processed_events rows None
   \<and> get_events a (Some []) = get_events a None
   \<and> mset (get_processed_events rows (Some [])) = mset rows
   \<and> get_events a (Some [])
       = map (\<lambda>(tp, e, ts, p).
                [(''topic'', tp), (''event_id'', e), (''timestamp'', ts), (''processed_at'', p)])
           (get_processed_events (dedup_store a) None)
   \<and> mset (get_events a (Some []))
       = image_mset (\<lambda>(tp, e, ts, p).
                [(''topic'', tp), (''event_id'', e), (''timestamp'', ts), (''processed_at'', p)])
           (mset (dedup_store a))
   \<and> length (get_events a (Some [])) = length (dedup_store a)"
proof -
  have same: "get_processed_events rs (Some []) = get_processed_events rs None" for rs
    by (simp add: get_processed_events_def)
  have all_rows: "mset (get_processed_events rs None) = mset rs" for rs
    by (simp add: get_processed_events_def mset_order_by)
  have dicts: "get_events a (Some [])
       = map (\<lambda>(tp, e, ts, p).
                [(''topic'', tp), (''event_id'', e), (''timestamp'', ts), (''processed_at'', p)])
           (get_processed_events (dedup_store a) None)"
    by (simp add: get_events_def row_dict_tuple same)
  have bag: "mset (get_events a (Some []))
       = image_mset (\<lambda>(tp, e, ts, p).
                [(''topic'', tp), (''event_id'', e), (''timestamp'', ts), (''processed_at'', p)])
           (mset (dedup_store a))"
    using all_rows [of "dedup_store a"]
    by (simp add: dicts)
  have "size (mset (get_events a (Some []))) = size (mset (dedup_store a))"
    by (simp only: bag size_image_mset)
  then have len: "length (get_events a (Some [])) = length (dedup_store a)"
    by simp
  have "get_events a (Some []) = get_events a None"
    by (simp add: get_events_def same)
  with same all_rows dicts bag len show ?thesis
    by simp
qed

theorem empty_topic_returns_all_witness:
  "get_processed_events
     [(''a'', ''1'', ''t1'', ''2025-10-18T10:00:05''),
      (''b'', ''1'', ''t2'', ''2025-10-18T10:00:06'')] None
   = [(''b'', ''1'', ''t2'', ''2025-10-18T10:00:06''),
      (''a'', ''1'', ''t1'', ''2025-10-18T10:00:05'')]
   \<and> get_processed_events
     [(''a'', ''1'', ''t1'', ''2025-10-18T10:00:05''),
      (''b'', ''1'', ''t2'', ''2025-10-18T10:00:06'')] (Some [])
   = [(''b'', ''1'', ''t2'', ''2025-10-18T10:00:06''),
      (''a'', ''1'', ''t1'', ''2025-10-18T10:00:05'')]
   \<and> get_events
        (EventAggregator_init
           [(''a'', ''1'', ''t1'', ''2025-10-18T10:00:05''),
            (''b'', ''1'', ''t2'', ''2025-10-18T10:00:06'')] 0) (Some [])
       = [[(''topic'', ''b''), (''event_id'', ''1''), (''timestamp'', ''t2''),
           (''processed_at'', ''2025-10-18T10:00:06'')],
          [(''topic'', ''a''), (''event_id'', ''1''), (''timestamp'', ''t1''),
           (''processed_at'', ''2025-10-18T10:00:05'')]]"
proof -
  let ?rows = "[(''a'', ''1'', ''t1'', ''2025-10-18T10:00:05''),
      (''b'', ''1'', ''t2'', ''2025-10-18T10:00:06'')]"
  have store: "dedup_store (EventAggregator_init ?rows 0) = ?rows"
    by (simp add: EventAggregator_init_def)
  have unfiltered: "get_processed_events ?rows None
      = [(''b'', ''1'', ''t2'', ''2025-10-18T10:00:06''),
         (''a'', ''1'', ''t1'', ''2025-10-18T10:00:05'')]"
    by code_simp
  note inst = empty_topic_returns_all [of ?rows "EventAggregator_init ?rows 0"]
  from inst unfiltered
  have filtered: "get_processed_events ?rows (Some [])
      = [(''b'', ''1'', ''t2'', ''2025-10-18T10:00:06''),
         (''a'', ''1'', ''t1'', ''2025-10-18T10:00:05'')]"
    by simp
  from inst have "get_events (EventAggregator_init ?rows 0) (Some [])
       = map (\<lambda>(tp, e, ts, p).
                [(''topic'', tp), (''event_id'', e), (''timestamp'', ts), (''processed_at'', p)])
           (get_processed_events (dedup_store (EventAggregator_init ?rows 0)) None)"
    by blast
  then have dicts: "get_events (EventAggregator_init ?rows 0) (Some [])
       = [[(''topic'', ''b''), (''event_id'', ''1''), (''timestamp'', ''t2''),
           (''processed_at'', ''2025-10-18T10:00:06'')],
          [(''topic'', ''a''), (''event_id'', ''1''), (''timestamp'', ''t1''),
           (''processed_at'', ''2025-10-18T10:00:05'')]]"
    by (simp add: store unfiltered)
  from unfiltered filtered dicts show ?thesis
    by blast
qed

section \<open>The steps of a consumer task\<close>




lemma consume_get_cases:
  assumes "consume_get a h = Some a'"
  obtains (timeout) w where "h < length (loop_tasks a)" "loop_tasks a ! h = (w, Waiting)" "a' = a"
  | (got) w event rest where "h < length (loop_tasks a)" "loop_tasks a ! h = (w, Waiting)"
      "queue a = event # rest"
      "a' = a\<lparr>queue := rest, loop_tasks := (loop_tasks a)[h := (w, Holding event)]\<rparr>"
  | (finished) w where "h < length (loop_tasks a)" "loop_tasks a ! h = (w, Waiting)"
      "queue a = []" "\<not> running a"
      "a' = a\<lparr>loop_tasks := (loop_tasks a)[h := (w, Finished)]\<rparr>"
proof -
  from assms have h: "h < length (loop_tasks a)" and s: "snd (loop_tasks a ! h) = Waiting"
    by (simp_all add: consume_get_def split: if_splits)
  obtain w where t: "loop_tasks a ! h = (w, Waiting)"
    using s by (cases "loop_tasks a ! h") simp
  show thesis
  proof (cases "queue a")
    case Nil
    show thesis
    proof (cases "running a")
      case True
      with assms h t Nil have "a' = a"
        by (simp add: consume_get_def)
      with h t show thesis by (rule timeout)
    next
      case False
      with assms h t Nil have "a' = a\<lparr>loop_tasks := (loop_tasks a)[h := (w, Finished)]\<rparr>"
        by (simp add: consume_get_def)
      with h t Nil False show thesis by (rule finished)
    qed
  next
    case (Cons event rest)
    with assms h t
    have "a' = a\<lparr>queue := rest, loop_tasks := (loop_tasks a)[h := (w, Holding event)]\<rparr>"
      by (simp add: consume_get_def)
    with h t Cons show thesis by (rule got)
  qed
qed

lemma consume_process_cases:
  assumes "consume_process a h now fault = Some a'"
  obtains (failed) w event f where "h < length (loop_tasks a)"
      "loop_tasks a ! h = (w, Holding event)" "fault = Some f"
      "a' = a\<lparr>loop_tasks := (loop_tasks a)[h := (w, Waiting)],
               error_log := error_log a @ [(w, f)]\<rparr>"
  | (duplicate) w event where "h < length (loop_tasks a)"
      "loop_tasks a ! h = (w, Holding event)" "fault = None"
      "is_duplicate (dedup_store a) (topic event) (event_id event)"
      "a' = a\<lparr>stats := (stats a)\<lparr>stats_dict.duplicate_dropped :=
                                     stats_dict.duplicate_dropped (stats a) + 1\<rparr>,
               loop_tasks := (loop_tasks a)[h := (w, Waiting)]\<rparr>"
  | (new) w event where "h < length (loop_tasks a)"
      "loop_tasks a ! h = (w, Holding event)" "fault = None"
      "\<not> is_duplicate (dedup_store a) (topic event) (event_id event)"
      "a' = a\<lparr>dedup_store := dedup_store a @ [(topic event, event_id event, timestamp event, now)],
               stats := (stats a)\<lparr>stats_dict.unique_processed :=
                                     stats_dict.unique_processed (stats a) + 1\<rparr>,
               loop_tasks := (loop_tasks a)[h := (w, Waiting)]\<rparr>"
proof -
  from assms have h: "h < length (loop_tasks a)"
    by (simp add: consume_process_def split: if_splits)
  from assms h obtain w event where t: "loop_tasks a ! h = (w, Holding event)"
    by (cases "loop_tasks a ! h"; cases "snd (loop_tasks a ! h)")
       (auto simp: consume_process_def)
  show thesis
  proof (cases fault)
    case (Some f)
    with assms h t have "a' = a\<lparr>loop_tasks := (loop_tasks a)[h := (w, Waiting)],
               error_log := error_log a @ [(w, f)]\<rparr>"
      by (simp add: consume_process_def process_event_def mark_processed_Some)
    with h t Some show thesis by (rule failed)
  next
    case None
    show thesis
    proof (cases "is_duplicate (dedup_store a) (topic event) (event_id event)")
      case True
      with assms h t None
      have "a' = a\<lparr>stats := (stats a)\<lparr>stats_dict.duplicate_dropped :=
                                     stats_dict.duplicate_dropped (stats a) + 1\<rparr>,
               loop_tasks := (loop_tasks a)[h := (w, Waiting)]\<rparr>"
        by (auto simp: consume_process_def process_event_def mark_processed_None)
      with h t None True show thesis by (rule duplicate)
    next
      case False
      with assms h t None
      have "a' = a\<lparr>dedup_store := dedup_store a @ [(topic event, event_id event, timestamp event, now)],
               stats := (stats a)\<lparr>stats_dict.unique_processed :=
                                     stats_dict.unique_processed (stats a) + 1\<rparr>,
               loop_tasks := (loop_tasks a)[h := (w, Waiting)]\<rparr>"
        by (auto simp: consume_process_def process_event_def mark_processed_None)
      with h t None False show thesis by (rule new)
    qed
  qed
qed

text \<open>
  Claim C6. Whatever error other than the violation of the primary key the database
  layer raises during the insert, \<open>mark_processed\<close> raises it to its caller; for the
  violation of the primary key it raises nothing and returns False. When the error
  reaches a consumer task that processes the event it holds, the task logs it with its
  worker id and is back at the beginning of its loop, where its next iteration can
  run; the store, the queue, the counters, the running flag and every other task are
  as before, so no task has ended.
\<close>

theorem store_failure_isolated:
  "mark_processed (Some f) rows t e ts now = Inl f
   \<and> (is_duplicate rows t e \<longrightarrow> mark_processed None rows t e ts now = Inr (False, rows))
   \<and> (h < length (loop_tasks a) \<longrightarrow> loop_tasks a ! h = (w, Holding event) \<longrightarrow>
        consume_process a h now (Some f)
          = Some (a\<lparr>loop_tasks := (loop_tasks a)[h := (w, Waiting)],
                    error_log := error_log a @ [(w, f)]\<rparr>)
        \<and> consume_get (a\<lparr>loop_tasks := (loop_tasks a)[h := (w, Waiting)],
                          error_log := error_log a @ [(w, f)]\<rparr>) h \<noteq> None)"
  by (auto simp: mark_processed_Some mark_processed_None consume_process_def process_event_def
        consume_get_def split: list.splits)

theorem store_failure_isolated_witness:
  "(0::nat) < length (loop_tasks
       \<lparr>dedup_store = [], queue = [],
         stats = \<lparr>stats_dict.received = 1, unique_processed = 0, duplicate_dropped = 0,
                   start_time = 0\<rparr>,
         running = True, consumer_tasks = [0],
         loop_tasks = [(0, Holding \<lparr>topic = ''a'', event_id = ''1'', timestamp = ''t'',
                                    source = ''s'', payload = ''p''\<rparr>)],
         error_log = []\<rparr>)
   \<and> is_duplicate [(''a'', ''1'', ''t1'', ''05'')] ''a'' ''1''
   \<and> mark_processed None [(''a'', ''1'', ''t1'', ''05'')] ''a'' ''1'' ''t'' ''06''
        = Inr (False, [(''a'', ''1'', ''t1'', ''05'')])
   \<and> mark_processed (Some OperationalError) [(''a'', ''1'', ''t1'', ''05'')] ''a'' ''1'' ''t'' ''06''
        = Inl OperationalError
   \<and> consume_process
       \<lparr>dedup_store = [], queue = [],
         stats = \<lparr>stats_dict.received = 1, unique_processed = 0, duplicate_dropped = 0,
                   start_time = 0\<rparr>,
         running = True, consumer_tasks = [0],
         loop_tasks = [(0, Holding \<lparr>topic = ''a'', event_id = ''1'', timestamp = ''t'',
                                    source = ''s'', payload = ''p''\<rparr>)],
         error_log = []\<rparr> 0 ''06'' (Some OperationalError)
       = Some \<lparr>dedup_store = [], queue = [],
         stats = \<lparr>stats_dict.received = 1, unique_processed = 0, duplicate_dropped = 0,
                   start_time = 0\<rparr>,
         running = True, consumer_tasks = [0],
         loop_tasks = [(0, Waiting)],
         error_log = [(0, OperationalError)]\<rparr>"
proof -
  let ?a = "\<lparr>dedup_store = [], queue = [],
         stats = \<lparr>stats_dict.received = 1, unique_processed = 0, duplicate_dropped = 0,
                   start_time = 0\<rparr>,
         running = True, consumer_tasks = [0],
         loop_tasks = [(0, Holding \<lparr>topic = ''a'', event_id = ''1'', timestamp = ''t'',
                                    source = ''s'', payload = ''p''\<rparr>)],
         error_log = []\<rparr>"
  have bound: "(0::nat) < length (loop_tasks ?a)" by simp
  have holds: "loop_tasks ?a ! 0 = (0, Holding \<lparr>topic = ''a'', event_id = ''1'',
                 timestamp = ''t'', source = ''s'', payload = ''p''\<rparr>)"
    by simp
  have dup: "is_duplicate [(''a'', ''1'', ''t1'', ''05'')] ''a'' ''1''"
    by (simp add: is_duplicate_def row_topic_def row_event_id_def)
  note inst = store_failure_isolated [of OperationalError "[(''a'', ''1'', ''t1'', ''05'')]"
      "''a''" "''1''" "''t''" "''06''" 0 ?a 0
      "\<lparr>topic = ''a'', event_id = ''1'', timestamp = ''t'', source = ''s'', payload = ''p''\<rparr>"]
  from inst bound holds dup show ?thesis
    by simp
qed

section \<open>Uptime\<close>

lemma start_time_step:
  assumes "step a act = Some a'" and "\<not> restarts act"
  shows "start_time (stats a') = start_time (stats a)"
proof (cases act)
  case Start
  with assms show ?thesis by (auto simp: step_def start_def)
next
  case Stop
  with assms show ?thesis by (auto simp: step_def stop_state)
next
  case (Publish events)
  with assms show ?thesis by (auto simp: step_def publish_state)
next
  case (Get h)
  with assms have "consume_get a h = Some a'" by (simp add: step_def)
  then show ?thesis by (cases rule: consume_get_cases) simp_all
next
  case (Process h now fault)
  with assms have "consume_process a h now fault = Some a'" by (simp add: step_def)
  then show ?thesis by (cases rule: consume_process_cases) simp_all
next
  case (Restart now)
  with assms show ?thesis by simp
qed

lemma start_time_run:
  "run a acts = Some a' \<Longrightarrow> \<forall>act \<in> set acts. \<not> restarts act \<Longrightarrow>
   start_time (stats a') = start_time (stats a)"
proof (induction acts arbitrary: a)
  case Nil
  then show ?case by simp
next
  case (Cons act acts)
  from Cons.prems(1) obtain a1 where s: "step a act = Some a1" and r: "run a1 acts = Some a'"
    by (auto split: option.splits)
  from Cons.IH [OF r] Cons.prems(2) start_time_step [OF s] show ?case
    by simp
qed

text \<open>
  Claim C7, as the code has it. \<open>start_time\<close> is the clock reading taken when the
  aggregator object is constructed, and no method changes it; \<open>start\<close> reads no
  clock. So \<open>uptime\<close> is the clock reading of the call of \<open>get_stats\<close> minus the
  reading at construction, in every state the aggregator reaches, whenever \<open>start\<close>
  was called; of two calls, the one with the later clock reading returns the larger
  or equal \<open>uptime\<close>.
\<close>

theorem uptime_since_construction:
  "run (EventAggregator_init store t0) acts = Some a \<Longrightarrow>
   run a acts' = Some a' \<Longrightarrow>
   \<forall>act \<in> set (acts @ acts'). \<not> restarts act \<Longrightarrow>
   now \<le> now' \<Longrightarrow>
   uptime (get_stats a now) = now - t0
   \<and> uptime (get_stats a' now') = now' - t0
   \<and> uptime (get_stats a now) \<le> uptime (get_stats a' now')"
proof -
  assume r1: "run (EventAggregator_init store t0) acts = Some a"
    and r2: "run a acts' = Some a'"
    and nr: "\<forall>act \<in> set (acts @ acts'). \<not> restarts act"
    and le: "now \<le> now'"
  from start_time_run [OF r1] nr have "start_time (stats a) = t0"
    by (simp add: EventAggregator_init_def)
  moreover from start_time_run [OF r2] nr have "start_time (stats a') = start_time (stats a)"
    by simp
  ultimately show ?thesis
    using le by (simp add: get_stats_def Let_def)
qed

theorem uptime_since_construction_witness:
  "run (EventAggregator_init [] 0) [Start] = Some (start (EventAggregator_init [] 0))
   \<and> run (start (EventAggregator_init [] 0)) [Stop]
       = Some (snd (stop (start (EventAggregator_init [] 0))))
   \<and> \<not> restarts Start \<and> \<not> restarts Stop
   \<and> (11::real) \<le> 12
   \<and> uptime (get_stats (start (EventAggregator_init [] 0)) 11) = 11 - 0
   \<and> uptime (get_stats (snd (stop (start (EventAggregator_init [] 0)))) 12) = 12 - 0
   \<and> uptime (get_stats (start (EventAggregator_init [] 0)) 11)
       \<le> uptime (get_stats (snd (stop (start (EventAggregator_init [] 0)))) 12)"
proof -
  have r1: "run (EventAggregator_init [] 0) [Start] = Some (start (EventAggregator_init [] 0))"
    by (simp add: step_def)
  have r2: "run (start (EventAggregator_init [] 0)) [Stop]
              = Some (snd (stop (start (EventAggregator_init [] 0))))"
    by (simp add: step_def)
  have nr: "\<forall>act \<in> set ([Start] @ [Stop]). \<not> restarts act" by simp
  have le: "(11::real) \<le> 12" by simp
  from uptime_since_construction [OF r1 r2 nr le] r1 r2 le show ?thesis
    by simp
qed

text \<open>
  Claim C7, as the specification has it, fails. An aggregator is constructed at the
  clock reading 0 and started later, say at 10; \<open>get_stats\<close> at the clock reading
  11, one second after the start, returns the uptime 11, which is not in [1, 2).
\<close>

theorem uptime_since_start_counterexample:
  "run (EventAggregator_init [] 0) [Start] = Some (start (EventAggregator_init [] 0))
   \<and> (11 - 10 = (1::real))
   \<and> uptime (get_stats (start (EventAggregator_init [] 0)) 11) = 11
   \<and> \<not> (1 \<le> uptime (get_stats (start (EventAggregator_init [] 0)) 11)
         \<and> uptime (get_stats (start (EventAggregator_init [] 0)) 11) < 2)"
  by (simp add: step_def get_stats_def start_def EventAggregator_init_def Let_def)

section \<open>Conservation of the counters\<close>









section \<open>Idempotency\<close>

















end
